theory Spec2Isabelle
  imports Main "HOL-Library.Sublist"
begin

section \<open>The CLIP encoder executors (clip\_torch.py, clip\_onnx.py)\<close>

text \<open>
  Both executors define a class \<open>CLIPEncoder\<close> with the operations \<open>__init__\<close>,
  \<open>encode\<close> and \<open>rank\<close>. Their \<open>encode\<close> and \<open>rank\<close> have the same control flow
  (the torch variant only wraps the two loops in \<open>torch.inference_mode()\<close> and converts
  the result of the model to a float32 array); the initialisers differ in the thread
  tuning. Documents are Python objects that are mutated in place and shared between the
  request's DocumentArray and the arrays built from it, so they live in an explicit
  store, and a DocumentArray is a list of addresses.
\<close>

subsection \<open>Data model\<close>

type_synonym addr = nat

text \<open>Raw content, preprocessed tensors and embeddings are opaque bit patterns.\<close>

type_synonym raw = "nat list"
type_synonym tensor = "nat list"
type_synonym embedding = "nat list"

text \<open>
  Modelled from the spec: the content of an Item, which the missing helper module
  (clip\_server/executors/helper.py) inspects. The spec's data model: an Item carries
  either raw image content or raw text content (mutually exclusive), or neither.
\<close>

datatype content = ImageContent raw | TextContent raw | NoContent

record item =
  content :: content
  embedding :: "embedding option"
  matches :: "addr list"
  chunks :: "addr list"

type_synonym store = "addr \<Rightarrow> item"

datatype error =
  TransformFailure | InferenceFailure | ValueError | ZeroDivisionError | RuntimeError

datatype modality = Image | Text

datatype warning = DeprecationWarning | TooManyReplicas int int

text \<open>
  What the coordinator does, in the order it does it: it receives a preprocessed
  minibatch from the pool, calls the model on it, and assigns the embeddings. The first
  two steps are recorded when they are attempted, also when they raise; a write-back is
  recorded when it is done.
\<close>

datatype event =
    Preprocessed modality "addr list"
  | Inference modality "addr list"
  | WriteBack modality "addr list"

fun event_modality :: "event \<Rightarrow> modality" where
  "event_modality (Preprocessed m b) = m"
| "event_modality (Inference m b) = m"
| "event_modality (WriteBack m b) = m"

subsection \<open>Selection: \<open>docs[access_paths]\<close>\<close>

text \<open>
  The selector of the document library, in parsed form: \<open>'@r,m'\<close> is
  \<open>[[Root], [Matches]]\<close>. A path is walked one step at a time; the paths of a
  comma-separated selector are walked one after the other and their results
  concatenated. The selected documents are the stored objects themselves.
\<close>

datatype step = Root | Matches | Chunks

type_synonym path = "step list"
type_synonym access_path = "path list"

fun traverse :: "store \<Rightarrow> addr list \<Rightarrow> path \<Rightarrow> addr list" where
  "traverse st ds [] = ds"
| "traverse st ds (Root # p) = traverse st ds p"
| "traverse st ds (Matches # p) = concat (map (\<lambda>d. traverse st (matches (st d)) p) ds)"
| "traverse st ds (Chunks # p) = concat (map (\<lambda>d. traverse st (chunks (st d)) p) ds)"

definition select :: "store \<Rightarrow> addr list \<Rightarrow> access_path \<Rightarrow> addr list" where
  "select st ds ap = concat (map (traverse st ds) ap)"

subsection \<open>The Modality Splitter\<close>

text \<open>
  Modelled from the spec: \<open>split_img_txt_da(doc, img_da, txt_da)\<close> of the missing helper
  module. An Item with image content is appended to the image array, one with text
  content to the text array, and one with neither is appended to none of them.
\<close>

definition split_img_txt_da :: "store \<Rightarrow> addr \<Rightarrow> addr list \<times> addr list \<Rightarrow> addr list \<times> addr list" where
  "split_img_txt_da st d das =
     (case content (st d) of
        ImageContent _ \<Rightarrow> (fst das @ [d], snd das)
      | TextContent _ \<Rightarrow> (fst das, snd das @ [d])
      | NoContent \<Rightarrow> das)"

text \<open>
  \<^verbatim>\<open>
  _img_da = DocumentArray()
  _txt_da = DocumentArray()
  for d in docs[access_paths]:
      split_img_txt_da(d, _img_da, _txt_da)
  \<close>
\<close>

definition split_docs :: "store \<Rightarrow> addr list \<Rightarrow> addr list \<times> addr list" where
  "split_docs st sel = foldl (\<lambda>das d. split_img_txt_da st d das) ([], []) sel"

subsection \<open>Minibatches\<close>

text \<open>
  \<open>da.map_batch(f, batch_size, pool)\<close> of the document library cuts the array into
  consecutive slices of \<open>batch_size\<close> documents (the last one may be shorter) and yields
  \<open>f\<close> of each slice, in order; a batch size that is not positive is a ValueError.
\<close>

function batch :: "nat \<Rightarrow> 'a list \<Rightarrow> 'a list list" where
  "batch n xs = (if n = 0 \<or> xs = [] then [] else take n xs # batch n (drop n xs))"
  by pat_completeness auto
termination
  by (relation "measure (\<lambda>(n, xs). length xs)") auto

declare batch.simps [simp del]

text \<open>
  The external collaborators of a request: the two transforms and the two forward passes
  of the model. Any of them may raise.

  Modelled from the spec: \<open>preproc_image\<close> and \<open>preproc_text\<close> of the missing helper
  module are pure functions of the raw content of the minibatch's Items; they return
  the minibatch together with its tensor.
\<close>

record engine =
  preproc_image :: "content list \<Rightarrow> error + tensor"
  preproc_text :: "content list \<Rightarrow> error + tensor"
  encode_image :: "tensor \<Rightarrow> error + embedding list"
  encode_text :: "tensor \<Rightarrow> error + embedding list"

fun preproc :: "engine \<Rightarrow> modality \<Rightarrow> content list \<Rightarrow> error + tensor" where
  "preproc eng Image = preproc_image eng"
| "preproc eng Text = preproc_text eng"

fun model_encode :: "engine \<Rightarrow> modality \<Rightarrow> tensor \<Rightarrow> error + embedding list" where
  "model_encode eng Image = encode_image eng"
| "model_encode eng Text = encode_text eng"

text \<open>
  \<open>minibatch.embeddings = value\<close>: the document library checks that \<open>value\<close> has one row
  per document (a ValueError otherwise) and assigns row \<open>j\<close> to document \<open>j\<close>.
\<close>

definition assign :: "store \<Rightarrow> addr \<times> embedding \<Rightarrow> store" where
  "assign st ae = st (fst ae := (st (fst ae))\<lparr>embedding := Some (snd ae)\<rparr>)"

definition set_embeddings :: "store \<Rightarrow> addr list \<Rightarrow> embedding list \<Rightarrow> error + store" where
  "set_embeddings st b embs =
     (if length embs \<noteq> length b then Inl ValueError
      else Inr (foldl assign st (zip b embs)))"

text \<open>
  \<^verbatim>\<open>
  for minibatch, batch_data in da.map_batch(self._preproc_X, batch_size=..., pool=...):
      minibatch.embeddings = self._model.encode_X(batch_data)
  \<close>
  An exception of the transform surfaces when the coordinator asks for that minibatch;
  every exception leaves the loop and the request.
\<close>

fun run_minibatches ::
  "engine \<Rightarrow> modality \<Rightarrow> addr list list \<Rightarrow> store \<Rightarrow> event list \<Rightarrow> error option \<times> store \<times> event list" where
  "run_minibatches eng m [] st tr = (None, st, tr)"
| "run_minibatches eng m (b # bs) st tr =
     (case preproc eng m (map (\<lambda>a. content (st a)) b) of
        Inl e \<Rightarrow> (Some e, st, tr @ [Preprocessed m b])
      | Inr t \<Rightarrow>
          (case model_encode eng m t of
             Inl e \<Rightarrow> (Some e, st, tr @ [Preprocessed m b, Inference m b])
           | Inr embs \<Rightarrow>
               (case set_embeddings st b embs of
                  Inl e \<Rightarrow> (Some e, st, tr @ [Preprocessed m b, Inference m b])
                | Inr st' \<Rightarrow>
                    run_minibatches eng m bs st'
                      (tr @ [Preprocessed m b, Inference m b, WriteBack m b]))))"

definition map_batch ::
  "engine \<Rightarrow> modality \<Rightarrow> int \<Rightarrow> addr list \<Rightarrow> store \<Rightarrow> event list \<Rightarrow> error option \<times> store \<times> event list" where
  "map_batch eng m batch_size da st tr =
     (if batch_size \<le> 0 then (Some ValueError, st, tr)
      else run_minibatches eng m (batch (nat batch_size) da) st tr)"

subsection \<open>The executor instance and \<open>encode\<close>\<close>

record clip_encoder =
  minibatch_size :: int
  access_paths :: access_path
  device :: string

record 'r outcome =
  st_out :: store
  events :: "event list"
  warnings :: "warning list"
  result :: "error + 'r"

text \<open>
  \<^verbatim>\<open>
  access_paths = parameters.get('access_paths', self._access_paths)
  if 'traversal_paths' in parameters:
      warnings.warn(...)
      access_paths = parameters['traversal_paths']
  \<close>
\<close>

definition request_access_paths ::
  "clip_encoder \<Rightarrow> (string \<rightharpoonup> access_path) \<Rightarrow> access_path \<times> warning list" where
  "request_access_paths self parameters =
     (let ap = (case parameters ''access_paths'' of Some p \<Rightarrow> p | None \<Rightarrow> access_paths self)
      in case parameters ''traversal_paths'' of
           Some p \<Rightarrow> (p, [DeprecationWarning])
         | None \<Rightarrow> (ap, []))"

text \<open>
  The rest of \<open>encode\<close>: split, then the image loop (only if the image array is not
  empty), then the text loop (only if the text array is not empty), then
  \<open>return docs\<close>.
\<close>

definition encode_paths ::
  "clip_encoder \<Rightarrow> engine \<Rightarrow> access_path \<Rightarrow> addr list \<Rightarrow> store \<Rightarrow> (addr list) outcome" where
  "encode_paths self eng ap docs st =
     (let (img_da, txt_da) = split_docs st (select st docs ap);
          (e1, st1, tr1) =
            (if img_da \<noteq> [] then map_batch eng Image (minibatch_size self) img_da st []
             else (None, st, []))
      in case e1 of
           Some e \<Rightarrow> \<lparr>st_out = st1, events = tr1, warnings = [], result = Inl e\<rparr>
         | None \<Rightarrow>
             (let (e2, st2, tr2) =
                    (if txt_da \<noteq> [] then map_batch eng Text (minibatch_size self) txt_da st1 tr1
                     else (None, st1, tr1))
              in case e2 of
                   Some e \<Rightarrow> \<lparr>st_out = st2, events = tr2, warnings = [], result = Inl e\<rparr>
                 | None \<Rightarrow> \<lparr>st_out = st2, events = tr2, warnings = [], result = Inr docs\<rparr>))"

definition encode ::
  "clip_encoder \<Rightarrow> engine \<Rightarrow> addr list \<Rightarrow> (string \<rightharpoonup> access_path) \<Rightarrow> store \<Rightarrow> (addr list) outcome" where
  "encode self eng docs parameters st =
     (let (ap, ws) = request_access_paths self parameters
      in (encode_paths self eng ap docs st)\<lparr>warnings := ws\<rparr>)"

text \<open>
  \<^verbatim>\<open>
  async def rank(self, docs, parameters, **kwargs):
      await self.encode(docs['@r,m'])
      set_rank(docs)
  \<close>
  \<open>set_rank\<close> belongs to the missing helper module and is a parameter here. \<open>rank\<close> has
  no return statement.
\<close>

definition rank ::
  "clip_encoder \<Rightarrow> engine \<Rightarrow> (addr list \<Rightarrow> store \<Rightarrow> store) \<Rightarrow> addr list \<Rightarrow>
   (string \<rightharpoonup> access_path) \<Rightarrow> store \<Rightarrow> unit outcome" where
  "rank self eng set_rank docs parameters st =
     (let r = encode self eng (select st docs [[Root], [Matches]]) Map.empty st
      in case result r of
           Inl e \<Rightarrow> \<lparr>st_out = st_out r, events = events r, warnings = warnings r, result = Inl e\<rparr>
         | Inr _ \<Rightarrow>
             \<lparr>st_out = set_rank docs (st_out r), events = events r, warnings = warnings r,
              result = Inr ()\<rparr>)"

subsection \<open>Initialisation\<close>

text \<open>
  What \<open>__init__\<close> reads from the process: whether \<open>OMP_NUM_THREADS\<close> is in the
  environment, \<open>torch.cuda.is_available()\<close>, and the global thread configuration of
  torch (\<open>torch.get_num_threads()\<close> reads \<open>num_threads\<close>, \<open>torch.set_num_threads\<close> and
  \<open>torch.set_num_interop_threads\<close> write it). Torch lets a process set the number of
  inter-op threads once only, and only before any inter-op parallel work has started:
  \<open>interop_threads_fixed\<close> says that this is no longer possible, and then
  \<open>torch.set_num_interop_threads\<close> raises a RuntimeError.
\<close>

record host =
  omp_num_threads_set :: bool
  cuda_is_available :: bool
  num_threads :: int
  num_interop_threads :: int
  interop_threads_fixed :: bool

text \<open>
  The arguments of \<open>__init__\<close> that take part in the configuration: \<open>kwargs\<close> may carry
  \<open>traversal_paths\<close>, and \<open>arg_replicas\<close> is \<open>runtime_args.replicas\<close> when the runtime
  arguments have that attribute.
\<close>

record init_args =
  arg_device :: "string option"
  arg_minibatch_size :: int
  arg_access_paths :: access_path
  arg_kwargs :: "string \<rightharpoonup> access_path"
  arg_replicas :: "int option"

definition startswith :: "string \<Rightarrow> string \<Rightarrow> bool" where
  "startswith s p = (take (length p) s = p)"

text \<open>
  \<^verbatim>\<open>
  if not device:
      self._device = 'cuda' if torch.cuda.is_available() else 'cpu'
  else:
      self._device = device
  \<close>
\<close>

definition resolve_device :: "string option \<Rightarrow> bool \<Rightarrow> string" where
  "resolve_device dev cuda =
     (case dev of
        None \<Rightarrow> (if cuda then ''cuda'' else ''cpu'')
      | Some d \<Rightarrow> (if d = [] then (if cuda then ''cuda'' else ''cpu'') else d))"

text \<open>
  \<^verbatim>\<open>
  self._access_paths = access_paths
  if 'traversal_paths' in kwargs:
      warnings.warn(...)
      self._access_paths = kwargs['traversal_paths']
  \<close>
\<close>

definition init_access_paths :: "init_args \<Rightarrow> access_path \<times> warning list" where
  "init_access_paths args =
     (case arg_kwargs args ''traversal_paths'' of
        Some p \<Rightarrow> (p, [DeprecationWarning])
      | None \<Rightarrow> (arg_access_paths args, []))"

text \<open>
  The guard of the thread tuning, the same in both executors:
  \<^verbatim>\<open>
  if not self._device.startswith('cuda') and (
      'OMP_NUM_THREADS' not in os.environ
      and hasattr(self.runtime_args, 'replicas')
  ):
  \<close>
\<close>

definition tunes_threads :: "host \<Rightarrow> init_args \<Rightarrow> string \<Rightarrow> bool" where
  "tunes_threads h args dev =
     (\<not> startswith dev ''cuda'' \<and> \<not> omp_num_threads_set h \<and> arg_replicas args \<noteq> None)"

text \<open>
  clip\_torch.py:
  \<^verbatim>\<open>
  replicas = getattr(self.runtime_args, 'replicas', 1)
  num_threads = max(1, torch.get_num_threads() // replicas)
  if num_threads < 2:
      warnings.warn(...)
  torch.set_num_threads(max(num_threads, 1))
  torch.set_num_interop_threads(1)
  \<close>
  Python's \<open>//\<close> on integers rounds down, as \<open>div\<close> on \<open>int\<close> does, and raises for a
  zero divisor. The warning and \<open>torch.set_num_threads\<close> come before
  \<open>torch.set_num_interop_threads\<close>, which raises when the inter-op threads are fixed
  already and fixes them otherwise. The result of an initialisation that returns is the
  instance, the warnings, and the host afterwards.
\<close>

definition clip_torch_init :: "host \<Rightarrow> init_args \<Rightarrow> error + (clip_encoder \<times> warning list \<times> host)" where
  "clip_torch_init h args =
     (let (ap, w1) = init_access_paths args;
          dev = resolve_device (arg_device args) (cuda_is_available h);
          self = \<lparr>minibatch_size = arg_minibatch_size args, access_paths = ap, device = dev\<rparr>
      in if tunes_threads h args dev then
           (case arg_replicas args of
              None \<Rightarrow> Inr (self, w1, h)
            | Some replicas \<Rightarrow>
                if replicas = 0 then Inl ZeroDivisionError
                else
                  (let nt = max 1 (num_threads h div replicas);
                       w2 = (if nt < 2 then [TooManyReplicas replicas nt] else [])
                   in if interop_threads_fixed h then Inl RuntimeError
                      else Inr (self, w1 @ w2,
                                h\<lparr>num_threads := max nt 1, num_interop_threads := 1,
                                  interop_threads_fixed := True\<rparr>)))
         else Inr (self, w1, h))"

text \<open>
  clip\_onnx.py configures the session options of the ONNX runtime instead of torch's
  global threads, and doubles the thread count before dividing:
  \<^verbatim>\<open>
  providers = ['CPUExecutionProvider']
  if self._device.startswith('cuda'):
      providers.insert(0, 'CUDAExecutionProvider')
  sess_options = ort.SessionOptions()
  sess_options.graph_optimization_level = ort.GraphOptimizationLevel.ORT_ENABLE_ALL
  if <guard>:
      replicas = getattr(self.runtime_args, 'replicas', 1)
      num_threads = max(1, torch.get_num_threads() * 2 // replicas)
      if num_threads < 2:
          warnings.warn(...)
      sess_options.execution_mode = ort.ExecutionMode.ORT_PARALLEL
      sess_options.inter_op_num_threads = 1
      sess_options.intra_op_num_threads = max(num_threads, 1)
  \<close>
  A fresh \<open>SessionOptions\<close> runs sequentially and leaves both thread counts at 0 (the
  runtime's own choice).
\<close>

datatype execution_mode = ORT_SEQUENTIAL | ORT_PARALLEL

datatype graph_optimization_level =
  ORT_DISABLE_ALL | ORT_ENABLE_BASIC | ORT_ENABLE_EXTENDED | ORT_ENABLE_ALL

record session_options =
  execution_mode :: execution_mode
  inter_op_num_threads :: int
  intra_op_num_threads :: int
  graph_optimization_level :: graph_optimization_level

definition SessionOptions :: session_options where
  "SessionOptions =
     \<lparr>execution_mode = ORT_SEQUENTIAL, inter_op_num_threads = 0, intra_op_num_threads = 0,
      graph_optimization_level = ORT_ENABLE_ALL\<rparr>"

definition clip_onnx_init ::
  "host \<Rightarrow> init_args \<Rightarrow> error + (clip_encoder \<times> warning list \<times> session_options \<times> string list)" where
  "clip_onnx_init h args =
     (let (ap, w1) = init_access_paths args;
          dev = resolve_device (arg_device args) (cuda_is_available h);
          self = \<lparr>minibatch_size = arg_minibatch_size args, access_paths = ap, device = dev\<rparr>;
          providers = (if startswith dev ''cuda''
                       then [''CUDAExecutionProvider'', ''CPUExecutionProvider'']
                       else [''CPUExecutionProvider'']);
          sess_options = SessionOptions\<lparr>graph_optimization_level := ORT_ENABLE_ALL\<rparr>
      in if tunes_threads h args dev then
           (case arg_replicas args of
              None \<Rightarrow> Inr (self, w1, sess_options, providers)
            | Some replicas \<Rightarrow>
                if replicas = 0 then Inl ZeroDivisionError
                else
                  (let nt = max 1 (num_threads h * 2 div replicas);
                       w2 = (if nt < 2 then [TooManyReplicas replicas nt] else [])
                   in Inr (self, w1 @ w2,
                           sess_options\<lparr>execution_mode := ORT_PARALLEL,
                                        inter_op_num_threads := 1,
                                        intra_op_num_threads := max nt 1\<rparr>,
                           providers)))
         else Inr (self, w1, sess_options, providers))"

section \<open>Auxiliary notions\<close>

text \<open>Which kind of content an Item carries.\<close>

fun is_image :: "content \<Rightarrow> bool" where
  "is_image (ImageContent _) = True"
| "is_image _ = False"

fun is_text :: "content \<Rightarrow> bool" where
  "is_text (TextContent _) = True"
| "is_text _ = False"

text \<open>
  Two stores have the same shape when they differ in embedding slots at most. The
  functions below are used in proofs only: they compute, from the contents alone, what a
  run of the loops does (its error, the assignments to embedding slots in the order they
  are made, and the coordinator's steps), so that a run is these assignments applied to
  the store it starts from.
\<close>

definition same_shape :: "store \<Rightarrow> store \<Rightarrow> bool" where
  "same_shape st st' =
     (\<forall>a. content (st' a) = content (st a) \<and> matches (st' a) = matches (st a) \<and>
          chunks (st' a) = chunks (st a))"

fun plan ::
  "engine \<Rightarrow> modality \<Rightarrow> (addr \<Rightarrow> content) \<Rightarrow> addr list list \<Rightarrow>
   error option \<times> (addr \<times> embedding) list \<times> event list" where
  "plan eng m c [] = (None, [], [])"
| "plan eng m c (b # bs) =
     (case preproc eng m (map c b) of
        Inl e \<Rightarrow> (Some e, [], [Preprocessed m b])
      | Inr t \<Rightarrow>
          (case model_encode eng m t of
             Inl e \<Rightarrow> (Some e, [], [Preprocessed m b, Inference m b])
           | Inr embs \<Rightarrow>
               if length embs \<noteq> length b
               then (Some ValueError, [], [Preprocessed m b, Inference m b])
               else (case plan eng m c bs of
                       (e, W, evs) \<Rightarrow>
                         (e, zip b embs @ W,
                          [Preprocessed m b, Inference m b, WriteBack m b] @ evs))))"

definition phase_plan ::
  "engine \<Rightarrow> modality \<Rightarrow> int \<Rightarrow> (addr \<Rightarrow> content) \<Rightarrow> addr list \<Rightarrow>
   error option \<times> (addr \<times> embedding) list \<times> event list" where
  "phase_plan eng m n c da =
     (if da = [] then (None, [], [])
      else if n \<le> 0 then (Some ValueError, [], [])
      else plan eng m c (batch (nat n) da))"

definition encode_plan ::
  "clip_encoder \<Rightarrow> engine \<Rightarrow> access_path \<Rightarrow> addr list \<Rightarrow> store \<Rightarrow>
   (error + addr list) \<times> (addr \<times> embedding) list \<times> event list" where
  "encode_plan self eng ap docs st =
     (case split_docs st (select st docs ap) of
        (img_da, txt_da) \<Rightarrow>
          (case phase_plan eng Image (minibatch_size self) (\<lambda>a. content (st a)) img_da of
             (Some e, W1, ev1) \<Rightarrow> (Inl e, W1, ev1)
           | (None, W1, ev1) \<Rightarrow>
               (case phase_plan eng Text (minibatch_size self) (\<lambda>a. content (st a)) txt_da of
                  (Some e, W2, ev2) \<Rightarrow> (Inl e, W1 @ W2, ev1 @ ev2)
                | (None, W2, ev2) \<Rightarrow> (Inr docs, W1 @ W2, ev1 @ ev2))))"

text \<open>The steps of a minibatch that goes through.\<close>

definition batch_events :: "modality \<Rightarrow> addr list \<Rightarrow> event list" where
  "batch_events m b = [Preprocessed m b, Inference m b, WriteBack m b]"

section \<open>Example requests\<close>

text \<open>
  The scenario of the specification: image A, text B and image C at addresses 0, 1 and 2,
  and an Item without content at address 3. Item 1 has the matches 2 and 3.
\<close>

definition blank :: item where
  "blank = \<lparr>content = NoContent, embedding = None, matches = [], chunks = []\<rparr>"

definition demo_store :: store where
  "demo_store =
     (\<lambda>_. blank)
       (0 := blank\<lparr>content := ImageContent [10]\<rparr>,
        1 := blank\<lparr>content := TextContent [20], matches := [2, 3]\<rparr>,
        2 := blank\<lparr>content := ImageContent [30]\<rparr>)"

fun raw_of :: "content \<Rightarrow> raw" where
  "raw_of (ImageContent r) = r"
| "raw_of (TextContent r) = r"
| "raw_of NoContent = []"

text \<open>
  An engine that never fails: the tensor of a minibatch has one number per Item, and the
  model returns one embedding per number. In the second engine the tokenizer raises.
\<close>

definition demo_engine :: engine where
  "demo_engine =
     \<lparr>preproc_image = (\<lambda>cs. Inr (concat (map raw_of cs))),
      preproc_text = (\<lambda>cs. Inr (concat (map raw_of cs))),
      encode_image = (\<lambda>t. Inr (map (\<lambda>x. [x, 1]) t)),
      encode_text = (\<lambda>t. Inr (map (\<lambda>x. [x, 2]) t))\<rparr>"

definition failing_text_engine :: engine where
  "failing_text_engine = demo_engine\<lparr>preproc_text := (\<lambda>cs. Inl TransformFailure)\<rparr>"

definition demo_encoder :: clip_encoder where
  "demo_encoder = \<lparr>minibatch_size = 2, access_paths = [[Root]], device = ''cpu''\<rparr>"

definition demo_args :: init_args where
  "demo_args =
     \<lparr>arg_device = None, arg_minibatch_size = 32, arg_access_paths = [[Root]],
      arg_kwargs = Map.empty, arg_replicas = Some 8\<rparr>"

definition demo_host :: host where
  "demo_host =
     \<lparr>omp_num_threads_set = False, cuda_is_available = False, num_threads = 2,
      num_interop_threads = 2, interop_threads_fixed = False\<rparr>"

section \<open>Lemmas about the splitter, the batches and the write-back\<close>

lemma split_step:
  "split_img_txt_da st d (i, t) =
     (if is_image (content (st d)) then (i @ [d], t)
      else if is_text (content (st d)) then (i, t @ [d]) else (i, t))"
  by (cases "content (st d)") (simp_all add: split_img_txt_da_def)

lemma split_docs_acc:
  "foldl (\<lambda>das d. split_img_txt_da st d das) (i, t) sel =
     (i @ filter (\<lambda>a. is_image (content (st a))) sel,
      t @ filter (\<lambda>a. is_text (content (st a))) sel)"
proof (induction sel arbitrary: i t)
  case Nil
  show ?case by simp
next
  case (Cons d sel)
  show ?case
    by (cases "content (st d)") (simp_all add: split_step Cons.IH)
qed

lemma split_docs_filter:
  "split_docs st sel =
     (filter (\<lambda>a. is_image (content (st a))) sel, filter (\<lambda>a. is_text (content (st a))) sel)"
  by (simp add: split_docs_def split_docs_acc)

lemma concat_batch: "0 < n \<Longrightarrow> concat (batch n xs) = xs"
proof (induction n xs rule: batch.induct)
  case (1 n xs)
  then show ?case
    by (subst batch.simps) auto
qed

lemma batch_Nil [simp]: "batch n [] = []"
  by (subst batch.simps) simp

lemma assign_shape:
  "content (assign st ae a) = content (st a)"
  "matches (assign st ae a) = matches (st a)"
  "chunks (assign st ae a) = chunks (st a)"
  by (simp_all add: assign_def)

lemma foldl_assign_shape:
  "content (foldl assign st W a) = content (st a) \<and>
   matches (foldl assign st W a) = matches (st a) \<and>
   chunks (foldl assign st W a) = chunks (st a)"
  by (induction W arbitrary: st) (simp_all add: assign_shape)

lemma same_shape_foldl_assign: "same_shape st (foldl assign st W)"
  by (simp add: same_shape_def foldl_assign_shape)

lemma assign_apply:
  "assign st (x, e) a = (if a = x then (st x)\<lparr>embedding := Some e\<rparr> else st a)"
  by (simp add: assign_def)

lemma foldl_assign_lookup:
  "foldl assign st W a =
     (case map_of (rev W) a of None \<Rightarrow> st a | Some e \<Rightarrow> (st a)\<lparr>embedding := Some e\<rparr>)"
proof (induction W rule: rev_induct)
  case Nil
  show ?case by simp
next
  case (snoc w W)
  show ?case
  proof (cases "fst w = a")
    case True
    then show ?thesis
      by (cases w) (simp add: assign_apply snoc.IH split: option.splits)
  next
    case False
    then show ?thesis
      by (cases w) (simp add: assign_apply snoc.IH)
  qed
qed

lemma foldl_assign_twice: "foldl assign (foldl assign st W) W = foldl assign st W"
  by (rule ext) (simp add: foldl_assign_lookup split: option.splits)

lemma run_minibatches_plan:
  "run_minibatches eng m bs st tr =
     (case plan eng m (\<lambda>a. content (st a)) bs of
        (e, W, evs) \<Rightarrow> (e, foldl assign st W, tr @ evs))"
proof (induction bs arbitrary: st tr)
  case Nil
  show ?case by simp
next
  case (Cons b bs)
  show ?case
    by (simp add: Cons.IH set_embeddings_def foldl_assign_shape
        split: sum.splits prod.splits)
qed

lemma traverse_shape:
  "same_shape st st' \<Longrightarrow> traverse st' ds p = traverse st ds p"
  by (induction st ds p rule: traverse.induct) (simp_all add: same_shape_def cong: map_cong)

lemma select_shape: "same_shape st st' \<Longrightarrow> select st' ds ap = select st ds ap"
  by (simp add: select_def traverse_shape cong: map_cong)

lemma split_docs_shape: "same_shape st st' \<Longrightarrow> split_docs st' sel = split_docs st sel"
  by (simp add: split_docs_filter same_shape_def)

section \<open>Lemmas about a run of \<open>encode\<close>\<close>

lemma map_batch_plan:
  "(if da \<noteq> [] then map_batch eng m n da st tr else (None, st, tr)) =
     (case phase_plan eng m n (\<lambda>a. content (st a)) da of
        (e, W, evs) \<Rightarrow> (e, foldl assign st W, tr @ evs))"
  by (simp add: map_batch_def phase_plan_def run_minibatches_plan)

lemma encode_paths_plan:
  "encode_paths self eng ap docs st =
     (case encode_plan self eng ap docs st of
        (r, W, evs) \<Rightarrow> \<lparr>st_out = foldl assign st W, events = evs, warnings = [], result = r\<rparr>)"
proof -
  obtain img_da txt_da where sp: "split_docs st (select st docs ap) = (img_da, txt_da)"
    by (cases "split_docs st (select st docs ap)")
  obtain e1 W1 ev1 where p1:
    "phase_plan eng Image (minibatch_size self) (\<lambda>a. content (st a)) img_da = (e1, W1, ev1)"
    by (cases "phase_plan eng Image (minibatch_size self) (\<lambda>a. content (st a)) img_da")
  obtain e2 W2 ev2 where p2:
    "phase_plan eng Text (minibatch_size self) (\<lambda>a. content (st a)) txt_da = (e2, W2, ev2)"
    by (cases "phase_plan eng Text (minibatch_size self) (\<lambda>a. content (st a)) txt_da")
  have p2': "phase_plan eng Text (minibatch_size self) (\<lambda>a. content (foldl assign st W1 a)) txt_da
      = (e2, W2, ev2)"
    by (simp add: foldl_assign_shape p2)
  show ?thesis
    unfolding encode_paths_def encode_plan_def sp prod.case map_batch_plan
    by (cases e1; cases e2) (simp_all add: p1 p2 p2')
qed

lemma encode_plan_shape:
  "same_shape st st' \<Longrightarrow> encode_plan self eng ap docs st' = encode_plan self eng ap docs st"
proof -
  assume s: "same_shape st st'"
  then have c: "(\<lambda>a. content (st' a)) = (\<lambda>a. content (st a))"
    by (simp add: same_shape_def)
  show ?thesis
    unfolding encode_plan_def c
    by (simp add: select_shape [OF s] split_docs_shape [OF s])
qed

lemma encode_paths_twice:
  "encode_paths self eng ap docs (st_out (encode_paths self eng ap docs st)) =
   encode_paths self eng ap docs st"
proof -
  obtain r W evs where pl: "encode_plan self eng ap docs st = (r, W, evs)"
    by (cases "encode_plan self eng ap docs st")
  have out: "st_out (encode_paths self eng ap docs st) = foldl assign st W"
    by (simp add: encode_paths_plan pl)
  have "encode_plan self eng ap docs (foldl assign st W) = (r, W, evs)"
    using encode_plan_shape [OF same_shape_foldl_assign] pl by simp
  then show ?thesis
    by (simp add: out) (simp add: encode_paths_plan pl foldl_assign_twice)
qed

lemma plan_events_modality:
  "plan eng m c bs = (e, W, evs) \<Longrightarrow> ev \<in> set evs \<Longrightarrow> event_modality ev = m"
proof (induction bs arbitrary: e W evs)
  case Nil
  then show ?case by simp
next
  case (Cons b bs)
  then show ?case
    by (auto split: sum.splits if_splits prod.splits)
qed

lemma plan_success_events:
  "plan eng m c bs = (None, W, evs) \<Longrightarrow> evs = concat (map (batch_events m) bs) \<and> map fst W = concat bs"
proof (induction bs arbitrary: W evs)
  case Nil
  then show ?case by simp
next
  case (Cons b bs)
  then show ?case
    by (auto simp: batch_events_def split: sum.splits if_splits prod.splits)
qed

lemma plan_written:
  "plan eng m c bs = (e, W, evs) \<Longrightarrow>
     (a \<in> fst ` set W) = (\<exists>m' b. WriteBack m' b \<in> set evs \<and> a \<in> set b)"
proof (induction bs arbitrary: e W evs)
  case Nil
  then show ?case by simp
next
  case (Cons b bs)
  show ?case
  proof (cases "preproc eng m (map c b)")
    case (Inl x)
    with Cons.prems show ?thesis by auto
  next
    case t: (Inr t)
    show ?thesis
    proof (cases "model_encode eng m t")
      case (Inl x)
      with Cons.prems t show ?thesis by auto
    next
      case embs: (Inr embs)
      show ?thesis
      proof (cases "length embs = length b")
        case False
        with Cons.prems t embs show ?thesis by auto
      next
        case True
        obtain e' W' evs' where r: "plan eng m c bs = (e', W', evs')"
          by (cases "plan eng m c bs")
        from True have fz: "fst ` set (zip b embs) = set b"
          by (metis map_fst_zip set_map)
        from Cons.prems t embs True r
        have W: "W = zip b embs @ W'" and evs: "evs = batch_events m b @ evs'"
          by (simp_all add: batch_events_def)
        have "(a \<in> fst ` set W) = (a \<in> set b \<or> a \<in> fst ` set W')"
          using fz by (auto simp: W image_Un)
        also have "\<dots> = (a \<in> set b \<or> (\<exists>m' b'. WriteBack m' b' \<in> set evs' \<and> a \<in> set b'))"
          by (simp add: Cons.IH [OF r])
        also have "\<dots> = (\<exists>m' b'. WriteBack m' b' \<in> set evs \<and> a \<in> set b')"
          by (auto simp: evs batch_events_def)
        finally show ?thesis .
      qed
    qed
  qed
qed

lemma plan_single_fails:
  "fst (plan eng m c [b]) \<noteq> None \<Longrightarrow> b \<in> set bs \<Longrightarrow> fst (plan eng m c bs) \<noteq> None"
proof (induction bs)
  case Nil
  then show ?case by simp
next
  case (Cons x bs)
  then show ?case
    by (auto split: sum.splits if_splits prod.splits)
qed

lemma encode_fields:
  "st_out (encode self eng docs parameters st) =
     st_out (encode_paths self eng (fst (request_access_paths self parameters)) docs st)"
  "events (encode self eng docs parameters st) =
     events (encode_paths self eng (fst (request_access_paths self parameters)) docs st)"
  "result (encode self eng docs parameters st) =
     result (encode_paths self eng (fst (request_access_paths self parameters)) docs st)"
  "warnings (encode self eng docs parameters st) = snd (request_access_paths self parameters)"
  by (simp_all add: encode_def split: prod.splits)

lemma encode_paths_warnings: "warnings (encode_paths self eng ap docs st) = []"
  by (simp add: encode_paths_plan split: prod.splits)

lemma phase_plan_events_modality:
  "phase_plan eng m n c da = (e, W, evs) \<Longrightarrow> ev \<in> set evs \<Longrightarrow> event_modality ev = m"
  by (auto simp: phase_plan_def split: if_splits dest: plan_events_modality)

lemma phase_plan_success:
  assumes "phase_plan eng m n c da = (None, W, evs)"
  shows "map fst W = da" and "evs = concat (map (batch_events m) (batch (nat n) da))"
proof -
  show "map fst W = da"
  proof (cases "da = []")
    case True
    with assms show ?thesis by (simp add: phase_plan_def)
  next
    case False
    with assms have n: "0 < n" and p: "plan eng m c (batch (nat n) da) = (None, W, evs)"
      by (auto simp: phase_plan_def split: if_splits)
    from plan_success_events [OF p] n show ?thesis
      by (simp add: concat_batch)
  qed
  show "evs = concat (map (batch_events m) (batch (nat n) da))"
  proof (cases "da = []")
    case True
    with assms show ?thesis by (simp add: phase_plan_def)
  next
    case False
    with assms have p: "plan eng m c (batch (nat n) da) = (None, W, evs)"
      by (auto simp: phase_plan_def split: if_splits)
    from plan_success_events [OF p] show ?thesis by simp
  qed
qed

lemma phase_plan_written:
  "phase_plan eng m n c da = (e, W, evs) \<Longrightarrow>
     (a \<in> fst ` set W) = (\<exists>m' b. WriteBack m' b \<in> set evs \<and> a \<in> set b)"
  by (auto simp: phase_plan_def plan_written split: if_splits)

lemma encode_plan_cases:
  assumes sp: "split_docs st (select st docs ap) = (img_da, txt_da)"
  obtains (image_fails) e W1 ev1 where
      "phase_plan eng Image (minibatch_size self) (\<lambda>a. content (st a)) img_da = (Some e, W1, ev1)"
      "encode_plan self eng ap docs st = (Inl e, W1, ev1)"
    | (text_fails) e W1 ev1 W2 ev2 where
      "phase_plan eng Image (minibatch_size self) (\<lambda>a. content (st a)) img_da = (None, W1, ev1)"
      "phase_plan eng Text (minibatch_size self) (\<lambda>a. content (st a)) txt_da = (Some e, W2, ev2)"
      "encode_plan self eng ap docs st = (Inl e, W1 @ W2, ev1 @ ev2)"
    | (succeeds) W1 ev1 W2 ev2 where
      "phase_plan eng Image (minibatch_size self) (\<lambda>a. content (st a)) img_da = (None, W1, ev1)"
      "phase_plan eng Text (minibatch_size self) (\<lambda>a. content (st a)) txt_da = (None, W2, ev2)"
      "encode_plan self eng ap docs st = (Inr docs, W1 @ W2, ev1 @ ev2)"
proof -
  obtain e1 W1 ev1 where p1:
    "phase_plan eng Image (minibatch_size self) (\<lambda>a. content (st a)) img_da = (e1, W1, ev1)"
    by (cases "phase_plan eng Image (minibatch_size self) (\<lambda>a. content (st a)) img_da")
  obtain e2 W2 ev2 where p2:
    "phase_plan eng Text (minibatch_size self) (\<lambda>a. content (st a)) txt_da = (e2, W2, ev2)"
    by (cases "phase_plan eng Text (minibatch_size self) (\<lambda>a. content (st a)) txt_da")
  show thesis
  proof (cases e1)
    case (Some e)
    with p1 show thesis
      by (intro image_fails [of e W1 ev1]) (simp_all add: encode_plan_def sp)
  next
    case None
    show thesis
    proof (cases e2)
      case (Some e)
      with p1 p2 None show thesis
        by (intro text_fails [of W1 ev1 e W2 ev2]) (simp_all add: encode_plan_def sp)
    next
      case n2: None
      with p1 p2 None show thesis
        by (intro succeeds [of W1 ev1 W2 ev2]) (simp_all add: encode_plan_def sp)
    qed
  qed
qed

lemma written_append:
  "(\<exists>m b. WriteBack m b \<in> set (ev1 @ ev2) \<and> a \<in> set b) =
     ((\<exists>m b. WriteBack m b \<in> set ev1 \<and> a \<in> set b) \<or>
      (\<exists>m b. WriteBack m b \<in> set ev2 \<and> a \<in> set b))"
  by auto

lemma two_phases_written:
  assumes "phase_plan eng m1 n c da1 = (e1, W1, ev1)"
    and "phase_plan eng m2 n c da2 = (e2, W2, ev2)"
  shows "(a \<in> fst ` set (W1 @ W2)) = (\<exists>m b. WriteBack m b \<in> set (ev1 @ ev2) \<and> a \<in> set b)"
proof -
  have "(a \<in> fst ` set (W1 @ W2)) = (a \<in> fst ` set W1 \<or> a \<in> fst ` set W2)"
    by (simp add: image_Un)
  also have "\<dots> = ((\<exists>m b. WriteBack m b \<in> set ev1 \<and> a \<in> set b) \<or>
      (\<exists>m b. WriteBack m b \<in> set ev2 \<and> a \<in> set b))"
    by (simp only: phase_plan_written [OF assms(1)] phase_plan_written [OF assms(2)])
  also have "\<dots> = (\<exists>m b. WriteBack m b \<in> set (ev1 @ ev2) \<and> a \<in> set b)"
    by (rule written_append [symmetric])
  finally show ?thesis .
qed

lemma encode_plan_written:
  assumes "encode_plan self eng ap docs st = (r, W, evs)"
  shows "(a \<in> fst ` set W) = (\<exists>m b. WriteBack m b \<in> set evs \<and> a \<in> set b)"
proof -
  obtain img_da txt_da where sp: "split_docs st (select st docs ap) = (img_da, txt_da)"
    by (cases "split_docs st (select st docs ap)")
  from sp show ?thesis
  proof (cases rule: encode_plan_cases [where eng = eng and self = self])
    case (image_fails e W1 ev1)
    with assms phase_plan_written [OF image_fails(1), of a] show ?thesis by simp
  next
    case (text_fails e W1 ev1 W2 ev2)
    from assms text_fails(3) have "W = W1 @ W2" "evs = ev1 @ ev2" by simp_all
    with two_phases_written [OF text_fails(1) text_fails(2)] show ?thesis by simp
  next
    case (succeeds W1 ev1 W2 ev2)
    from assms succeeds(3) have "W = W1 @ W2" "evs = ev1 @ ev2" by simp_all
    with two_phases_written [OF succeeds(1) succeeds(2)] show ?thesis by simp
  qed
qed

lemma foldl_assign_written:
  "a \<in> fst ` set W \<Longrightarrow> embedding (foldl assign st W a) \<noteq> None"
  "a \<notin> fst ` set W \<Longrightarrow> foldl assign st W a = st a"
proof -
  assume "a \<in> fst ` set W"
  then have "map_of (rev W) a \<noteq> None"
    by (simp add: map_of_eq_None_iff)
  then show "embedding (foldl assign st W a) \<noteq> None"
    by (auto simp: foldl_assign_lookup)
next
  assume "a \<notin> fst ` set W"
  then have "map_of (rev W) a = None"
    by (simp add: map_of_eq_None_iff)
  then show "foldl assign st W a = st a"
    by (simp add: foldl_assign_lookup)
qed

lemma single_batch_plan:
  "fst (run_minibatches eng m [b] st []) = fst (plan eng m (\<lambda>a. content (st a)) [b])"
  by (simp add: run_minibatches_plan split: prod.splits)

lemma batch_zero [simp]: "batch 0 xs = []"
  by (subst batch.simps) simp

lemma phase_plan_fails:
  assumes "b \<in> set (batch (nat n) da)" and "fst (run_minibatches eng m [b] st []) \<noteq> None"
  shows "fst (phase_plan eng m n (\<lambda>a. content (st a)) da) \<noteq> None"
proof -
  from assms(1) have da: "da \<noteq> []" by auto
  from assms(1) have n: "0 < n" by (cases "0 < n") auto
  have "fst (plan eng m (\<lambda>a. content (st a)) [b]) \<noteq> None"
    using assms(2) unfolding single_batch_plan .
  from plan_single_fails [OF this assms(1)] da n show ?thesis
    by (simp add: phase_plan_def)
qed

section \<open>The example requests, evaluated\<close>

lemmas demo_defs =
  demo_store_def demo_engine_def failing_text_engine_def demo_encoder_def blank_def

lemmas run_defs =
  encode_def request_access_paths_def encode_paths_def select_def split_docs_def
  split_img_txt_da_def map_batch_def set_embeddings_def assign_def batch.simps

lemma demo_encode_result:
  "result (encode demo_encoder demo_engine [0, 1, 2, 3] Map.empty demo_store) = Inr [0, 1, 2, 3]"
  by (simp add: demo_defs run_defs)

lemma demo_encode_events:
  "events (encode demo_encoder demo_engine [0, 1, 2, 3] Map.empty demo_store) =
     [Preprocessed Image [0, 2], Inference Image [0, 2], WriteBack Image [0, 2],
      Preprocessed Text [1], Inference Text [1], WriteBack Text [1]]"
  by (simp add: demo_defs run_defs)

lemma demo_encode_embeddings:
  "map (\<lambda>a. embedding (st_out (encode demo_encoder demo_engine [0, 1, 2, 3] Map.empty demo_store) a))
     [0, 1, 2, 3] = [Some [10, 1], Some [20, 2], Some [30, 1], None]"
  by (simp add: demo_defs run_defs)

lemma failing_encode_result:
  "result (encode demo_encoder failing_text_engine [0, 1, 2, 3] Map.empty demo_store) =
     Inl TransformFailure"
  by (simp add: demo_defs run_defs)

lemma failing_encode_embeddings:
  "map (\<lambda>a. embedding (st_out (encode demo_encoder failing_text_engine [0, 1, 2, 3] Map.empty demo_store) a))
     [0, 1, 2, 3] = [Some [10, 1], None, Some [30, 1], None]"
  by (simp add: demo_defs run_defs)

lemma failing_encode_events:
  "events (encode demo_encoder failing_text_engine [0, 1, 2, 3] Map.empty demo_store) =
     [Preprocessed Image [0, 2], Inference Image [0, 2], WriteBack Image [0, 2],
      Preprocessed Text [1]]"
  by (simp add: demo_defs run_defs)

lemma demo_split:
  "split_docs demo_store
     (select demo_store [0, 1, 2, 3] (fst (request_access_paths demo_encoder Map.empty))) =
   ([0, 2], [1])"
  by (simp add: demo_defs run_defs)

lemma text_only_split:
  "split_docs demo_store
     (select demo_store [1, 3] (fst (request_access_paths demo_encoder Map.empty))) =
   ([], [1])"
  by (simp add: demo_defs run_defs)

lemma text_only_events:
  "events (encode demo_encoder demo_engine [1, 3] Map.empty demo_store) =
     [Preprocessed Text [1], Inference Text [1], WriteBack Text [1]]"
  by (simp add: demo_defs run_defs)

lemma text_only_result:
  "result (encode demo_encoder demo_engine [1, 3] Map.empty demo_store) = Inr [1, 3]"
  by (simp add: demo_defs run_defs)

lemma no_content_split:
  "split_docs demo_store
     (select demo_store [3] (fst (request_access_paths demo_encoder Map.empty))) = ([], [])"
  by (simp add: demo_defs run_defs)

lemma has_content: "(is_image c \<or> is_text c) = (c \<noteq> NoContent)"
  by (cases c) simp_all

lemma demo_no_embeddings: "\<forall>a. embedding (demo_store a) = None"
  by (simp add: demo_defs)

lemma demo_select:
  "select demo_store [0, 1, 2, 3] (fst (request_access_paths demo_encoder Map.empty)) =
     [0, 1, 2, 3]"
  by (simp add: demo_defs run_defs)

lemma demo_contents:
  "map (\<lambda>a. content (demo_store a)) [0, 1, 2, 3] =
     [ImageContent [10], TextContent [20], ImageContent [30], NoContent]"
  by (simp add: demo_defs)

lemma failing_text_batch:
  "[1] \<in> set (batch (nat (minibatch_size demo_encoder)) [1]) \<and>
   fst (run_minibatches failing_text_engine Text [[1]] demo_store []) = Some TransformFailure"
  by (simp add: demo_defs run_defs)

lemma initialised_encode_result:
  "result (encode \<lparr>minibatch_size = 32, access_paths = [[Root]], device = ''cpu''\<rparr>
             demo_engine [0, 1, 2, 3] Map.empty demo_store) = Inr [0, 1, 2, 3]"
  by (simp add: demo_defs run_defs)

lemma torch_second_initialisation:
  "clip_torch_init
     (demo_host\<lparr>num_threads := 1, num_interop_threads := 1, interop_threads_fixed := True\<rparr>)
     demo_args = Inl RuntimeError"
  by (simp add: clip_torch_init_def init_access_paths_def resolve_device_def
      tunes_threads_def startswith_def demo_args_def demo_host_def)

section \<open>The claims\<close>

subsection \<open>C6: the thread budget\<close>

text \<open>
  C6, as stated, fails on the code: on a CPU-only deployment with replica count 8 and
  host thread count 2, but with \<open>OMP_NUM_THREADS\<close> in the environment, neither executor
  derives a budget (the budget of the claim would be 1), none emits a warning, and the
  thread configuration stays as it was.
\<close>

theorem thread_budget_counterexample:
  "clip_torch_init (demo_host\<lparr>omp_num_threads_set := True\<rparr>) demo_args =
     Inr (\<lparr>minibatch_size = 32, access_paths = [[Root]], device = ''cpu''\<rparr>, [],
          demo_host\<lparr>omp_num_threads_set := True\<rparr>) \<and>
   num_threads (demo_host\<lparr>omp_num_threads_set := True\<rparr>) = 2 \<and>
   arg_replicas demo_args = Some 8 \<and>
   max 1 (2 div 8) = (1::int) \<and>
   clip_onnx_init (demo_host\<lparr>omp_num_threads_set := True\<rparr>) demo_args =
     Inr (\<lparr>minibatch_size = 32, access_paths = [[Root]], device = ''cpu''\<rparr>, [],
          SessionOptions, [''CPUExecutionProvider''])"
  by (simp add: clip_torch_init_def clip_onnx_init_def init_access_paths_def
      resolve_device_def tunes_threads_def startswith_def demo_args_def demo_host_def
      SessionOptions_def)

text \<open>
  C6, amended: when the device is not a CUDA device, \<open>OMP_NUM_THREADS\<close> is not set and
  the runtime arguments carry a replica count \<open>r\<close> (not zero), the thread budget is the
  host's thread count, times 1 (torch) or 2 (onnx), divided by \<open>r\<close> rounding down, and
  at least 1; whenever that budget is below 2 the warning is among the warnings emitted;
  initialisation returns the instance exactly as configured, so that every later
  \<open>encode\<close> call is what it would be without the tuning. In clip\_torch.py this is
  stated for a process whose inter-op thread count can still be set.
\<close>

theorem thread_budget:
  assumes "\<not> startswith (resolve_device (arg_device args) (cuda_is_available h)) ''cuda''"
    and "\<not> omp_num_threads_set h"
    and "arg_replicas args = Some r"
    and "r \<noteq> 0"
  shows "(\<not> interop_threads_fixed h \<longrightarrow>
            (\<exists>self ws h'.
               clip_torch_init h args = Inr (self, ws, h') \<and>
               self = \<lparr>minibatch_size = arg_minibatch_size args,
                        access_paths = fst (init_access_paths args),
                        device = resolve_device (arg_device args) (cuda_is_available h)\<rparr> \<and>
               num_threads h' = max 1 (num_threads h div r) \<and>
               (num_threads h' < 2 \<longrightarrow> TooManyReplicas r (num_threads h') \<in> set ws) \<and>
               encode self eng docs parameters st =
                 encode \<lparr>minibatch_size = arg_minibatch_size args,
                         access_paths = fst (init_access_paths args),
                         device = resolve_device (arg_device args) (cuda_is_available h)\<rparr>
                   eng docs parameters st)) \<and>
         (\<exists>self ws so ps.
            clip_onnx_init h args = Inr (self, ws, so, ps) \<and>
            self = \<lparr>minibatch_size = arg_minibatch_size args,
                     access_paths = fst (init_access_paths args),
                     device = resolve_device (arg_device args) (cuda_is_available h)\<rparr> \<and>
            intra_op_num_threads so = max 1 (num_threads h * 2 div r) \<and>
            (intra_op_num_threads so < 2 \<longrightarrow>
               TooManyReplicas r (intra_op_num_threads so) \<in> set ws) \<and>
            encode self eng docs parameters st =
              encode \<lparr>minibatch_size = arg_minibatch_size args,
                      access_paths = fst (init_access_paths args),
                      device = resolve_device (arg_device args) (cuda_is_available h)\<rparr>
                eng docs parameters st)"
proof -
  have tune: "tunes_threads h args (resolve_device (arg_device args) (cuda_is_available h))"
    using assms by (simp add: tunes_threads_def)
  have torch: "\<not> interop_threads_fixed h \<longrightarrow>
      (\<exists>self ws h'.
         clip_torch_init h args = Inr (self, ws, h') \<and>
         self = \<lparr>minibatch_size = arg_minibatch_size args,
                  access_paths = fst (init_access_paths args),
                  device = resolve_device (arg_device args) (cuda_is_available h)\<rparr> \<and>
         num_threads h' = max 1 (num_threads h div r) \<and>
         (num_threads h' < 2 \<longrightarrow> TooManyReplicas r (num_threads h') \<in> set ws) \<and>
         encode self eng docs parameters st =
           encode \<lparr>minibatch_size = arg_minibatch_size args,
                   access_paths = fst (init_access_paths args),
                   device = resolve_device (arg_device args) (cuda_is_available h)\<rparr>
             eng docs parameters st)"
    using assms(3,4) tune
    by (simp add: clip_torch_init_def Let_def split: prod.splits)
  have onnx: "\<exists>self ws so ps.
      clip_onnx_init h args = Inr (self, ws, so, ps) \<and>
      self = \<lparr>minibatch_size = arg_minibatch_size args,
               access_paths = fst (init_access_paths args),
               device = resolve_device (arg_device args) (cuda_is_available h)\<rparr> \<and>
      intra_op_num_threads so = max 1 (num_threads h * 2 div r) \<and>
      (intra_op_num_threads so < 2 \<longrightarrow>
         TooManyReplicas r (intra_op_num_threads so) \<in> set ws) \<and>
      encode self eng docs parameters st =
        encode \<lparr>minibatch_size = arg_minibatch_size args,
                access_paths = fst (init_access_paths args),
                device = resolve_device (arg_device args) (cuda_is_available h)\<rparr>
          eng docs parameters st"
    using assms(3,4) tune
    by (simp add: clip_onnx_init_def Let_def split: prod.splits)
  show ?thesis
    by (intro conjI) (rule torch onnx)+
qed

text \<open>
  The scenario of the specification: replica count 8 and host thread count 2 give the
  budget 1 and the warning in both executors, and the instance they return encodes the
  example Document Set.
\<close>

theorem thread_budget_witness:
  "\<not> startswith (resolve_device (arg_device demo_args) (cuda_is_available demo_host)) ''cuda'' \<and>
   \<not> omp_num_threads_set demo_host \<and>
   arg_replicas demo_args = Some 8 \<and>
   \<not> interop_threads_fixed demo_host \<and>
   clip_torch_init demo_host demo_args =
     Inr (\<lparr>minibatch_size = 32, access_paths = [[Root]], device = ''cpu''\<rparr>,
          [TooManyReplicas 8 1], demo_host\<lparr>num_threads := 1, num_interop_threads := 1,
                    interop_threads_fixed := True\<rparr>) \<and>
   clip_onnx_init demo_host demo_args =
     Inr (\<lparr>minibatch_size = 32, access_paths = [[Root]], device = ''cpu''\<rparr>,
          [TooManyReplicas 8 1],
          SessionOptions\<lparr>execution_mode := ORT_PARALLEL, inter_op_num_threads := 1,
                         intra_op_num_threads := 1\<rparr>,
          [''CPUExecutionProvider'']) \<and>
   result (encode \<lparr>minibatch_size = 32, access_paths = [[Root]], device = ''cpu''\<rparr>
             demo_engine [0, 1, 2, 3] Map.empty demo_store) = Inr [0, 1, 2, 3]"
  using thread_budget [of demo_args demo_host 8 demo_engine "[0, 1, 2, 3]" Map.empty demo_store]
    initialised_encode_result
  by (simp add: clip_torch_init_def clip_onnx_init_def init_access_paths_def
      resolve_device_def tunes_threads_def startswith_def demo_args_def demo_host_def
      SessionOptions_def)

subsection \<open>C9: no thread tuning behind the guard\<close>

text \<open>
  C9: if \<open>OMP_NUM_THREADS\<close> is set, or the requested device is a CUDA device, or the
  runtime arguments carry no replica count, then initialisation succeeds without thread
  tuning: torch's global thread configuration is returned as it was, the session
  options of the ONNX runtime keep the execution mode and thread counts of a fresh
  \<open>SessionOptions\<close>, and no warning about replicas is emitted, whatever the replica
  count.
\<close>

theorem no_thread_tuning:
  assumes "omp_num_threads_set h \<or>
           (\<exists>d. arg_device args = Some d \<and> startswith d ''cuda'') \<or>
           arg_replicas args = None"
  shows "(\<exists>self ws. clip_torch_init h args = Inr (self, ws, h) \<and>
            (\<forall>r n. TooManyReplicas r n \<notin> set ws)) \<and>
         (\<exists>self ws so ps. clip_onnx_init h args = Inr (self, ws, so, ps) \<and>
            execution_mode so = execution_mode SessionOptions \<and>
            inter_op_num_threads so = inter_op_num_threads SessionOptions \<and>
            intra_op_num_threads so = intra_op_num_threads SessionOptions \<and>
            (\<forall>r n. TooManyReplicas r n \<notin> set ws))"
proof -
  let ?dev = "resolve_device (arg_device args) (cuda_is_available h)"
  have "\<not> tunes_threads h args ?dev"
    using assms
  proof (elim disjE exE conjE)
    assume "omp_num_threads_set h"
    then show ?thesis by (simp add: tunes_threads_def)
  next
    fix d assume d: "arg_device args = Some d" "startswith d ''cuda''"
    then have "d \<noteq> []" by (auto simp: startswith_def)
    with d show ?thesis by (simp add: tunes_threads_def resolve_device_def)
  next
    assume "arg_replicas args = None"
    then show ?thesis by (simp add: tunes_threads_def)
  qed
  then show ?thesis
    by (auto simp: clip_torch_init_def clip_onnx_init_def init_access_paths_def Let_def
        split: prod.splits option.splits)
qed

text \<open>One request for each of the three conditions, the first with 1000 replicas.\<close>

theorem no_thread_tuning_witness:
  "omp_num_threads_set (demo_host\<lparr>omp_num_threads_set := True\<rparr>) \<and>
   arg_replicas (demo_args\<lparr>arg_replicas := Some 1000\<rparr>) = Some 1000 \<and>
   clip_torch_init (demo_host\<lparr>omp_num_threads_set := True\<rparr>)
       (demo_args\<lparr>arg_replicas := Some 1000\<rparr>) =
     Inr (\<lparr>minibatch_size = 32, access_paths = [[Root]], device = ''cpu''\<rparr>, [],
          demo_host\<lparr>omp_num_threads_set := True\<rparr>) \<and>
   startswith ''cuda:0'' ''cuda'' \<and>
   clip_onnx_init demo_host (demo_args\<lparr>arg_device := Some ''cuda:0''\<rparr>) =
     Inr (\<lparr>minibatch_size = 32, access_paths = [[Root]], device = ''cuda:0''\<rparr>, [],
          SessionOptions, [''CUDAExecutionProvider'', ''CPUExecutionProvider'']) \<and>
   clip_torch_init demo_host (demo_args\<lparr>arg_replicas := None\<rparr>) =
     Inr (\<lparr>minibatch_size = 32, access_paths = [[Root]], device = ''cpu''\<rparr>, [], demo_host)"
  using no_thread_tuning [of "demo_host\<lparr>omp_num_threads_set := True\<rparr>"
      "demo_args\<lparr>arg_replicas := Some 1000\<rparr>"]
    no_thread_tuning [of demo_host "demo_args\<lparr>arg_device := Some ''cuda:0''\<rparr>"]
    no_thread_tuning [of demo_host "demo_args\<lparr>arg_replicas := None\<rparr>"]
  by (simp add: clip_torch_init_def clip_onnx_init_def init_access_paths_def
      resolve_device_def tunes_threads_def startswith_def demo_args_def demo_host_def
      SessionOptions_def)

subsection \<open>C8: idempotence\<close>

text \<open>
  C8: running \<open>encode\<close> again on the store a first run leaves behind, with the same
  instance, engine, Document Set and parameters, gives the same outcome as the first
  run: the same embedding on every Item, the same result and the same steps. The engine
  is a function, so its inference is deterministic.
\<close>

theorem encode_idempotent:
  "encode self eng docs parameters (st_out (encode self eng docs parameters st)) =
   encode self eng docs parameters st"
  by (simp add: encode_def encode_paths_twice split: prod.splits)

text \<open>The second run on the example Document Set leaves the embeddings of the first.\<close>

theorem encode_idempotent_witness:
  "map (\<lambda>a. embedding
          (st_out (encode demo_encoder demo_engine [0, 1, 2, 3] Map.empty
             (st_out (encode demo_encoder demo_engine [0, 1, 2, 3] Map.empty demo_store))) a))
     [0, 1, 2, 3] = [Some [10, 1], Some [20, 2], Some [30, 1], None]"
  using encode_idempotent [of demo_encoder demo_engine "[0, 1, 2, 3]" Map.empty demo_store]
    demo_encode_embeddings
  by simp

subsection \<open>C3: the Modality Splitter\<close>

text \<open>
  C3: for every Document Set and selection path, the splitter loop puts every selected
  Item with image content into the image array and not into the text array, every
  selected Item with text content into the text array and not into the image array, and
  an Item with neither into none of them; the two arrays share no Item; each array is
  the selection filtered by its kind of content, so it is a subsequence of the selection
  in the selection's order. The loop has no failing branch.
\<close>

theorem splitter_partition:
  assumes "split_docs st (select st docs ap) = (img_da, txt_da)"
  shows "img_da = filter (\<lambda>a. is_image (content (st a))) (select st docs ap) \<and>
         txt_da = filter (\<lambda>a. is_text (content (st a))) (select st docs ap) \<and>
         (\<forall>a\<in>set (select st docs ap).
            (is_image (content (st a)) \<longrightarrow> a \<in> set img_da \<and> a \<notin> set txt_da) \<and>
            (is_text (content (st a)) \<longrightarrow> a \<in> set txt_da \<and> a \<notin> set img_da) \<and>
            (content (st a) = NoContent \<longrightarrow> a \<notin> set img_da \<and> a \<notin> set txt_da)) \<and>
         set img_da \<inter> set txt_da = {} \<and>
         subseq img_da (select st docs ap) \<and>
         subseq txt_da (select st docs ap)"
proof -
  let ?sel = "select st docs ap"
  from assms have img: "img_da = filter (\<lambda>a. is_image (content (st a))) ?sel"
    and tx: "txt_da = filter (\<lambda>a. is_text (content (st a))) ?sel"
    by (simp_all add: split_docs_filter)
  have excl: "\<not> (is_image c \<and> is_text c)" for c
    by (cases c) simp_all
  have none: "\<not> is_image NoContent" "\<not> is_text NoContent"
    by simp_all
  have routed: "\<forall>a\<in>set ?sel.
      (is_image (content (st a)) \<longrightarrow> a \<in> set img_da \<and> a \<notin> set txt_da) \<and>
      (is_text (content (st a)) \<longrightarrow> a \<in> set txt_da \<and> a \<notin> set img_da) \<and>
      (content (st a) = NoContent \<longrightarrow> a \<notin> set img_da \<and> a \<notin> set txt_da)"
    using excl none by (auto simp: img tx)
  have disj: "set img_da \<inter> set txt_da = {}"
    using excl by (auto simp: img tx)
  have sub: "subseq img_da ?sel" "subseq txt_da ?sel"
    by (simp_all add: img tx)
  from img tx routed disj sub show ?thesis by blast
qed

text \<open>
  The example: of the Items 0 to 3, the images 0 and 2 and the text 1 are routed, and
  Item 3, which has no content, is dropped.
\<close>

theorem splitter_partition_witness:
  "split_docs demo_store (select demo_store [0, 1, 2, 3] [[Root]]) = ([0, 2], [1]) \<and>
   set [0, 2::nat] \<inter> set [1] = {} \<and>
   subseq [0, 2::nat] (select demo_store [0, 1, 2, 3] [[Root]]) \<and>
   subseq [1::nat] (select demo_store [0, 1, 2, 3] [[Root]]) \<and>
   content (demo_store 3) = NoContent"
proof -
  have sp: "split_docs demo_store (select demo_store [0, 1, 2, 3] [[Root]]) = ([0, 2], [1])"
    by (simp add: demo_defs run_defs)
  from splitter_partition [OF sp]
  have "set [0, 2::nat] \<inter> set [1] = {}"
    and "subseq [0, 2::nat] (select demo_store [0, 1, 2, 3] [[Root]])"
    and "subseq [1::nat] (select demo_store [0, 1, 2, 3] [[Root]])"
    by blast+
  moreover have "content (demo_store 3) = NoContent"
    by (simp add: demo_defs)
  ultimately show ?thesis
    using sp by blast
qed

subsection \<open>C4: images before texts\<close>

text \<open>
  C4: the steps of one \<open>encode\<close> call are the steps of the image loop followed by the
  steps of the text loop: every step of the first part is on an image minibatch, every
  step of the second part on a text minibatch, and when there is any text step at all,
  the first part is the complete run of the image loop: every image minibatch
  preprocessed, passed to the model and written back, one minibatch after the other.
\<close>

theorem image_pipeline_before_text_pipeline:
  assumes "split_docs st (select st docs (fst (request_access_paths self parameters))) =
             (img_da, txt_da)"
    and "r = encode self eng docs parameters st"
  shows "\<exists>ti tt. events r = ti @ tt \<and>
           (\<forall>ev\<in>set ti. event_modality ev = Image) \<and>
           (\<forall>ev\<in>set tt. event_modality ev = Text) \<and>
           (tt \<noteq> [] \<longrightarrow>
              ti = concat (map (batch_events Image) (batch (nat (minibatch_size self)) img_da)))"
proof -
  let ?ap = "fst (request_access_paths self parameters)"
  have ev: "events r = events (encode_paths self eng ?ap docs st)"
    by (simp add: assms(2) encode_fields)
  from assms(1) show ?thesis
  proof (cases rule: encode_plan_cases [where eng = eng and self = self])
    case (image_fails e W1 ev1)
    then have "events r = ev1 @ []"
      by (simp add: ev encode_paths_plan)
    moreover have "\<forall>ev\<in>set ev1. event_modality ev = Image"
      using phase_plan_events_modality [OF image_fails(1)] by blast
    ultimately show ?thesis by force
  next
    case (text_fails e W1 ev1 W2 ev2)
    then have "events r = ev1 @ ev2"
      by (simp add: ev encode_paths_plan)
    moreover have "\<forall>ev\<in>set ev1. event_modality ev = Image"
      using phase_plan_events_modality [OF text_fails(1)] by blast
    moreover have "\<forall>ev\<in>set ev2. event_modality ev = Text"
      using phase_plan_events_modality [OF text_fails(2)] by blast
    moreover note phase_plan_success(2) [OF text_fails(1)]
    ultimately show ?thesis by blast
  next
    case (succeeds W1 ev1 W2 ev2)
    then have "events r = ev1 @ ev2"
      by (simp add: ev encode_paths_plan)
    moreover have "\<forall>ev\<in>set ev1. event_modality ev = Image"
      using phase_plan_events_modality [OF succeeds(1)] by blast
    moreover have "\<forall>ev\<in>set ev2. event_modality ev = Text"
      using phase_plan_events_modality [OF succeeds(2)] by blast
    moreover note phase_plan_success(2) [OF succeeds(1)]
    ultimately show ?thesis by blast
  qed
qed

text \<open>The example: the three steps on the images 0 and 2 come before those on text 1.\<close>

theorem image_pipeline_before_text_pipeline_witness:
  "events (encode demo_encoder demo_engine [0, 1, 2, 3] Map.empty demo_store) =
     [Preprocessed Image [0, 2], Inference Image [0, 2], WriteBack Image [0, 2],
      Preprocessed Text [1], Inference Text [1], WriteBack Text [1]] \<and>
   concat (map (batch_events Image) (batch (nat (minibatch_size demo_encoder)) [0, 2])) =
     [Preprocessed Image [0, 2], Inference Image [0, 2], WriteBack Image [0, 2]]"
proof -
  note split = image_pipeline_before_text_pipeline [OF demo_split refl, of demo_engine]
  have bt: "concat (map (batch_events Image) (batch (nat (minibatch_size demo_encoder)) [0, 2])) =
     [Preprocessed Image [0, 2], Inference Image [0, 2], WriteBack Image [0, 2]]"
    by (simp add: demo_encoder_def batch_events_def batch.simps)
  from split demo_encode_events bt show ?thesis by blast
qed

subsection \<open>C5: an empty modality is skipped\<close>

text \<open>
  C5: when the image array is empty after splitting, no step of the call is on an image
  minibatch (nothing is preprocessed, the model is not called for images), and the call
  is exactly the text loop run on the store as it was; the same with the two modalities
  exchanged; and when both arrays are empty the call succeeds, returns the Document Set
  and changes nothing. An empty array is never the cause of an error.
\<close>

theorem empty_modality_skipped:
  assumes "split_docs st (select st docs (fst (request_access_paths self parameters))) =
             (img_da, txt_da)"
    and "r = encode self eng docs parameters st"
  shows "(img_da = [] \<longrightarrow> (\<forall>ev\<in>set (events r). event_modality ev \<noteq> Image)) \<and>
         (txt_da = [] \<longrightarrow> (\<forall>ev\<in>set (events r). event_modality ev \<noteq> Text)) \<and>
         (img_da = [] \<and> txt_da \<noteq> [] \<longrightarrow>
            (case map_batch eng Text (minibatch_size self) txt_da st [] of
               (e, st', tr) \<Rightarrow>
                 st_out r = st' \<and> events r = tr \<and>
                 result r = (case e of None \<Rightarrow> Inr docs | Some x \<Rightarrow> Inl x))) \<and>
         (txt_da = [] \<and> img_da \<noteq> [] \<longrightarrow>
            (case map_batch eng Image (minibatch_size self) img_da st [] of
               (e, st', tr) \<Rightarrow>
                 st_out r = st' \<and> events r = tr \<and>
                 result r = (case e of None \<Rightarrow> Inr docs | Some x \<Rightarrow> Inl x))) \<and>
         (img_da = [] \<and> txt_da = [] \<longrightarrow>
            st_out r = st \<and> events r = [] \<and> result r = Inr docs)"
proof -
  let ?ap = "fst (request_access_paths self parameters)"
  let ?n = "minibatch_size self"
  have r: "st_out r = st_out (encode_paths self eng ?ap docs st)"
    "events r = events (encode_paths self eng ?ap docs st)"
    "result r = result (encode_paths self eng ?ap docs st)"
    by (simp_all add: assms(2) encode_fields)
  have no_image: "img_da = [] \<longrightarrow> (\<forall>ev\<in>set (events r). event_modality ev \<noteq> Image)"
  proof
    assume that: "img_da = []"
    from assms(1) show "\<forall>ev\<in>set (events r). event_modality ev \<noteq> Image"
    proof (cases rule: encode_plan_cases [where eng = eng and self = self])
    case (image_fails e W1 ev1)
    with that show ?thesis by (simp add: phase_plan_def)
  next
    case (text_fails e W1 ev1 W2 ev2)
    with that have "events r = ev2"
      by (simp add: r encode_paths_plan phase_plan_def)
    with phase_plan_events_modality [OF text_fails(2)] show ?thesis by auto
  next
    case (succeeds W1 ev1 W2 ev2)
    with that have "events r = ev2"
      by (simp add: r encode_paths_plan phase_plan_def)
    with phase_plan_events_modality [OF succeeds(2)] show ?thesis by auto
    qed
  qed
  have no_text: "txt_da = [] \<longrightarrow> (\<forall>ev\<in>set (events r). event_modality ev \<noteq> Text)"
  proof
    assume that: "txt_da = []"
    from assms(1) show "\<forall>ev\<in>set (events r). event_modality ev \<noteq> Text"
    proof (cases rule: encode_plan_cases [where eng = eng and self = self])
    case (image_fails e W1 ev1)
    then have "events r = ev1"
      by (simp add: r encode_paths_plan)
    with phase_plan_events_modality [OF image_fails(1)] show ?thesis by auto
  next
    case (text_fails e W1 ev1 W2 ev2)
    with that show ?thesis by (simp add: phase_plan_def)
  next
    case (succeeds W1 ev1 W2 ev2)
    with that have "events r = ev1"
      by (simp add: r encode_paths_plan phase_plan_def)
    with phase_plan_events_modality [OF succeeds(1)] show ?thesis by auto
    qed
  qed
  have only_text: "img_da = [] \<and> txt_da \<noteq> [] \<longrightarrow>
    (case map_batch eng Text ?n txt_da st [] of
      (e, st', tr) \<Rightarrow> st_out r = st' \<and> events r = tr \<and>
        result r = (case e of None \<Rightarrow> Inr docs | Some x \<Rightarrow> Inl x))"
    by (simp add: r encode_paths_def assms(1) split: prod.splits option.splits)
  have only_image: "txt_da = [] \<and> img_da \<noteq> [] \<longrightarrow>
    (case map_batch eng Image ?n img_da st [] of
      (e, st', tr) \<Rightarrow> st_out r = st' \<and> events r = tr \<and>
        result r = (case e of None \<Rightarrow> Inr docs | Some x \<Rightarrow> Inl x))"
    by (simp add: r encode_paths_def assms(1) split: prod.splits option.splits)
  have neither: "img_da = [] \<and> txt_da = [] \<longrightarrow>
      st_out r = st \<and> events r = [] \<and> result r = Inr docs"
    by (simp add: r encode_paths_def assms(1))
  show ?thesis
    by (intro conjI) (rule no_image no_text only_text only_image neither)+
qed

text \<open>
  A request with the text Item 1 and the Item 3 without content runs the text loop only;
  a request with Item 3 alone runs nothing and succeeds.
\<close>

theorem empty_modality_skipped_witness:
  "split_docs demo_store
     (select demo_store [1, 3] (fst (request_access_paths demo_encoder Map.empty))) =
     ([], [1]) \<and>
   events (encode demo_encoder demo_engine [1, 3] Map.empty demo_store) =
     [Preprocessed Text [1], Inference Text [1], WriteBack Text [1]] \<and>
   result (encode demo_encoder demo_engine [1, 3] Map.empty demo_store) = Inr [1, 3] \<and>
   split_docs demo_store
     (select demo_store [3] (fst (request_access_paths demo_encoder Map.empty))) = ([], []) \<and>
   events (encode demo_encoder demo_engine [3] Map.empty demo_store) = [] \<and>
   result (encode demo_encoder demo_engine [3] Map.empty demo_store) = Inr [3]"
proof -
  note a = empty_modality_skipped [OF text_only_split refl, of demo_engine]
  note b = empty_modality_skipped [OF no_content_split refl, of demo_engine]
  from b have "events (encode demo_encoder demo_engine [3] Map.empty demo_store) = []"
    and "result (encode demo_encoder demo_engine [3] Map.empty demo_store) = Inr [3]"
    by blast+
  with a text_only_split text_only_events text_only_result no_content_split
  show ?thesis by blast
qed

subsection \<open>C7: the deprecated name \<open>traversal_paths\<close>\<close>

text \<open>
  C7: a \<open>traversal_paths\<close> among the keyword arguments of \<open>__init__\<close> becomes the
  instance's access path in both executors, with exactly one deprecation warning; a
  \<open>traversal_paths\<close> among the parameters of a request is the access path \<open>encode\<close>
  uses, whatever the instance default and whatever \<open>access_paths\<close> the request also
  gives, with exactly one deprecation warning for the call; without it a request-time
  \<open>access_paths\<close> is used, and the instance default only when the request names
  neither.
\<close>

theorem traversal_paths_honoured:
  "(arg_kwargs args ''traversal_paths'' = Some p \<longrightarrow>
      (\<forall>self ws h'. clip_torch_init h args = Inr (self, ws, h') \<longrightarrow>
         access_paths self = p \<and> count_list ws DeprecationWarning = 1) \<and>
      (\<forall>self ws so ps. clip_onnx_init h args = Inr (self, ws, so, ps) \<longrightarrow>
         access_paths self = p \<and> count_list ws DeprecationWarning = 1)) \<and>
   (parameters ''traversal_paths'' = Some p \<longrightarrow>
      encode self eng docs parameters st =
        (encode_paths self eng p docs st)\<lparr>warnings := [DeprecationWarning]\<rparr>) \<and>
   (parameters ''traversal_paths'' = None \<and> parameters ''access_paths'' = Some q \<longrightarrow>
      encode self eng docs parameters st = encode_paths self eng q docs st) \<and>
   (parameters ''traversal_paths'' = None \<and> parameters ''access_paths'' = None \<longrightarrow>
      encode self eng docs parameters st = encode_paths self eng (access_paths self) docs st)"
proof -
  have init_torch: "access_paths self = p \<and> count_list ws DeprecationWarning = 1"
    if "arg_kwargs args ''traversal_paths'' = Some p"
      and "clip_torch_init h args = Inr (self, ws, h')" for self ws h'
    using that
    by (auto simp: clip_torch_init_def init_access_paths_def Let_def
        split: if_splits option.splits)
  have init_onnx: "access_paths self = p \<and> count_list ws DeprecationWarning = 1"
    if "arg_kwargs args ''traversal_paths'' = Some p"
      and "clip_onnx_init h args = Inr (self, ws, so, ps)" for self ws so ps
    using that
    by (auto simp: clip_onnx_init_def init_access_paths_def Let_def
        split: if_splits option.splits)
  have same: "(encode_paths self eng ap docs st)\<lparr>warnings := []\<rparr> =
      encode_paths self eng ap docs st" for ap
    using encode_paths_warnings [of self eng ap docs st] by simp
  have old: "encode self eng docs parameters st =
      (encode_paths self eng p docs st)\<lparr>warnings := [DeprecationWarning]\<rparr>"
    if "parameters ''traversal_paths'' = Some p"
    using that by (simp add: encode_def request_access_paths_def)
  have new: "encode self eng docs parameters st = encode_paths self eng q docs st"
    if "parameters ''traversal_paths'' = None" "parameters ''access_paths'' = Some q"
    using that by (simp add: encode_def request_access_paths_def same)
  have dflt: "encode self eng docs parameters st =
      encode_paths self eng (access_paths self) docs st"
    if "parameters ''traversal_paths'' = None" "parameters ''access_paths'' = None"
    using that by (simp add: encode_def request_access_paths_def same)
  from init_torch init_onnx old new dflt show ?thesis by blast
qed

text \<open>
  An initialisation with \<open>traversal_paths='@m'\<close>, a request on Item 1 that gives both
  names (the matches of Item 1 are encoded, not its chunks), and one that gives the new
  name only.
\<close>

theorem traversal_paths_honoured_witness:
  "clip_torch_init demo_host
       (demo_args\<lparr>arg_kwargs := [''traversal_paths'' \<mapsto> [[Matches]]]\<rparr>) =
     Inr (\<lparr>minibatch_size = 32, access_paths = [[Matches]], device = ''cpu''\<rparr>,
          [DeprecationWarning, TooManyReplicas 8 1],
          demo_host\<lparr>num_threads := 1, num_interop_threads := 1,
                    interop_threads_fixed := True\<rparr>) \<and>
   count_list [DeprecationWarning, TooManyReplicas 8 1] DeprecationWarning = 1 \<and>
   events (encode demo_encoder demo_engine [1]
       [''access_paths'' \<mapsto> [[Chunks]], ''traversal_paths'' \<mapsto> [[Matches]]] demo_store) =
     [Preprocessed Image [2], Inference Image [2], WriteBack Image [2]] \<and>
   warnings (encode demo_encoder demo_engine [1]
       [''access_paths'' \<mapsto> [[Chunks]], ''traversal_paths'' \<mapsto> [[Matches]]] demo_store) =
     [DeprecationWarning] \<and>
   events (encode demo_encoder demo_engine [1] [''access_paths'' \<mapsto> [[Matches]]] demo_store) =
     [Preprocessed Image [2], Inference Image [2], WriteBack Image [2]] \<and>
   warnings (encode demo_encoder demo_engine [1] [''access_paths'' \<mapsto> [[Matches]]] demo_store) = []"
proof -
  note h = traversal_paths_honoured
    [of "demo_args\<lparr>arg_kwargs := [''traversal_paths'' \<mapsto> [[Matches]]]\<rparr>" "[[Matches]]"
      demo_host "[''access_paths'' \<mapsto> [[Chunks]], ''traversal_paths'' \<mapsto> [[Matches]]]"
      demo_encoder demo_engine "[1]" demo_store "[[Chunks]]"]
  have i: "clip_torch_init demo_host
       (demo_args\<lparr>arg_kwargs := [''traversal_paths'' \<mapsto> [[Matches]]]\<rparr>) =
     Inr (\<lparr>minibatch_size = 32, access_paths = [[Matches]], device = ''cpu''\<rparr>,
          [DeprecationWarning, TooManyReplicas 8 1],
          demo_host\<lparr>num_threads := 1, num_interop_threads := 1,
                    interop_threads_fixed := True\<rparr>)"
    by (simp add: clip_torch_init_def init_access_paths_def resolve_device_def
        tunes_threads_def startswith_def demo_args_def demo_host_def)
  have c: "count_list [DeprecationWarning, TooManyReplicas 8 1] DeprecationWarning = 1"
    by simp
  have e1: "events (encode demo_encoder demo_engine [1]
       [''access_paths'' \<mapsto> [[Chunks]], ''traversal_paths'' \<mapsto> [[Matches]]] demo_store) =
     [Preprocessed Image [2], Inference Image [2], WriteBack Image [2]]"
    by (simp add: demo_defs run_defs)
  have w1: "warnings (encode demo_encoder demo_engine [1]
       [''access_paths'' \<mapsto> [[Chunks]], ''traversal_paths'' \<mapsto> [[Matches]]] demo_store) =
     [DeprecationWarning]"
    by (simp add: demo_defs run_defs)
  have e2: "events (encode demo_encoder demo_engine [1] [''access_paths'' \<mapsto> [[Matches]]]
       demo_store) = [Preprocessed Image [2], Inference Image [2], WriteBack Image [2]]"
    by (simp add: demo_defs run_defs)
  have w2: "warnings (encode demo_encoder demo_engine [1] [''access_paths'' \<mapsto> [[Matches]]]
       demo_store) = []"
    by (simp add: demo_defs run_defs)
  from h i c e1 w1 e2 w2 show ?thesis by blast
qed

subsection \<open>C10: \<open>rank\<close> and the request parameters\<close>

text \<open>
  C10: \<open>rank\<close> does not pass its parameters on: its outcome is the same for all
  parameters, and it is \<open>encode\<close> with the instance's default access path applied to the
  selection \<open>'@r,m'\<close> of the Document Set, followed by \<open>set_rank\<close> when \<open>encode\<close>
  returns.
\<close>

theorem rank_ignores_request_parameters:
  "rank self eng set_rank docs parameters st = rank self eng set_rank docs Map.empty st \<and>
   rank self eng set_rank docs parameters st =
     (let r = encode_paths self eng (access_paths self)
                (select st docs [[Root], [Matches]]) st
      in case result r of
           Inl e \<Rightarrow> \<lparr>st_out = st_out r, events = events r, warnings = [], result = Inl e\<rparr>
         | Inr _ \<Rightarrow>
             \<lparr>st_out = set_rank docs (st_out r), events = events r, warnings = [],
              result = Inr ()\<rparr>)"
  by (simp add: rank_def encode_def request_access_paths_def Let_def encode_paths_warnings
      split: sum.splits)

text \<open>
  A request to rank Item 1 that asks for the chunks under both names: the root and its
  matches are encoded all the same.
\<close>

theorem rank_ignores_request_parameters_witness:
  "events (rank demo_encoder demo_engine (\<lambda>ds st. st) [1]
       [''access_paths'' \<mapsto> [[Chunks]], ''traversal_paths'' \<mapsto> [[Chunks]]] demo_store) =
     [Preprocessed Image [2], Inference Image [2], WriteBack Image [2],
      Preprocessed Text [1], Inference Text [1], WriteBack Text [1]]"
proof -
  have "events (rank demo_encoder demo_engine (\<lambda>ds st. st) [1] Map.empty demo_store) =
     [Preprocessed Image [2], Inference Image [2], WriteBack Image [2],
      Preprocessed Text [1], Inference Text [1], WriteBack Text [1]]"
    by (simp add: rank_def demo_defs run_defs)
  with rank_ignores_request_parameters
    [of demo_encoder demo_engine "\<lambda>ds st. st" "[1]"
      "[''access_paths'' \<mapsto> [[Chunks]], ''traversal_paths'' \<mapsto> [[Chunks]]]" demo_store]
  show ?thesis by metis
qed

subsection \<open>C2: who gets an embedding\<close>

text \<open>
  C2: when \<open>encode\<close> returns, the Items whose embedding the call has written are exactly
  the selected Items that carry image or text content, each of them has an embedding,
  and an Item with neither kind of content is left as it was; so, when no Item had an
  embedding before the call, the Items with an embedding after it are exactly the
  selected Items with content. The call returns the Document Set it was given, and
  changes neither the content nor the matches nor the chunks of any Item: the write-back
  reorders nothing.
\<close>

theorem encode_embeds_selected_content_items:
  assumes "r = encode self eng docs parameters st"
    and "result r = Inr ds"
  shows "(\<forall>a. (\<exists>m b. WriteBack m b \<in> set (events r) \<and> a \<in> set b) =
              (a \<in> set (select st docs (fst (request_access_paths self parameters))) \<and>
               content (st a) \<noteq> NoContent)) \<and>
         (\<forall>a. a \<in> set (select st docs (fst (request_access_paths self parameters))) \<and>
              content (st a) \<noteq> NoContent \<longrightarrow> embedding (st_out r a) \<noteq> None) \<and>
         (\<forall>a. content (st a) = NoContent \<longrightarrow> st_out r a = st a) \<and>
         ((\<forall>a. embedding (st a) = None) \<longrightarrow>
            {a. embedding (st_out r a) \<noteq> None} =
              {a \<in> set (select st docs (fst (request_access_paths self parameters))).
                 content (st a) \<noteq> NoContent}) \<and>
         ds = docs \<and>
         (\<forall>a. content (st_out r a) = content (st a) \<and>
              matches (st_out r a) = matches (st a) \<and>
              chunks (st_out r a) = chunks (st a))"
proof -
  let ?ap = "fst (request_access_paths self parameters)"
  let ?sel = "select st docs ?ap"
  obtain img_da txt_da where sp: "split_docs st ?sel = (img_da, txt_da)"
    by (cases "split_docs st ?sel")
  have r: "st_out r = st_out (encode_paths self eng ?ap docs st)"
    "result r = result (encode_paths self eng ?ap docs st)"
    "events r = events (encode_paths self eng ?ap docs st)"
    by (simp_all add: assms(1) encode_fields)
  from sp obtain W1 ev1 W2 ev2 where
    p1: "phase_plan eng Image (minibatch_size self) (\<lambda>a. content (st a)) img_da = (None, W1, ev1)"
    and p2: "phase_plan eng Text (minibatch_size self) (\<lambda>a. content (st a)) txt_da = (None, W2, ev2)"
    and pl: "encode_plan self eng ?ap docs st = (Inr docs, W1 @ W2, ev1 @ ev2)"
  proof (cases rule: encode_plan_cases [where eng = eng and self = self])
    case (image_fails e W1 ev1)
    with assms(2) show ?thesis by (simp add: r encode_paths_plan)
  next
    case (text_fails e W1 ev1 W2 ev2)
    with assms(2) show ?thesis by (simp add: r encode_paths_plan)
  next
    case (succeeds W1 ev1 W2 ev2)
    with that show ?thesis by blast
  qed
  have out: "st_out r = foldl assign st (W1 @ W2)"
    by (simp add: r encode_paths_plan pl)
  have evs: "events r = ev1 @ ev2"
    by (simp add: r encode_paths_plan pl)
  have "result r = Inr docs"
    by (simp add: r encode_paths_plan pl)
  with assms(2) have ds: "ds = docs"
    by simp
  have "fst ` set (W1 @ W2) = set (map fst W1) \<union> set (map fst W2)"
    by (simp add: image_Un)
  also have "\<dots> = set img_da \<union> set txt_da"
    by (simp only: phase_plan_success(1) [OF p1] phase_plan_success(1) [OF p2])
  also have "\<dots> = {a \<in> set ?sel. content (st a) \<noteq> NoContent}"
    using sp by (auto simp: split_docs_filter has_content [symmetric])
  finally have dom: "fst ` set (W1 @ W2) = {a \<in> set ?sel. content (st a) \<noteq> NoContent}" .
  have written: "\<forall>a. (\<exists>m b. WriteBack m b \<in> set (events r) \<and> a \<in> set b) =
      (a \<in> set ?sel \<and> content (st a) \<noteq> NoContent)"
  proof
    fix a
    have "(\<exists>m b. WriteBack m b \<in> set (events r) \<and> a \<in> set b) = (a \<in> fst ` set (W1 @ W2))"
      unfolding evs by (rule encode_plan_written [OF pl, symmetric])
    also have "\<dots> = (a \<in> set ?sel \<and> content (st a) \<noteq> NoContent)"
      unfolding dom by simp
    finally show "(\<exists>m b. WriteBack m b \<in> set (events r) \<and> a \<in> set b) =
      (a \<in> set ?sel \<and> content (st a) \<noteq> NoContent)" .
  qed
  have some: "\<forall>a. a \<in> set ?sel \<and> content (st a) \<noteq> NoContent \<longrightarrow>
      embedding (st_out r a) \<noteq> None"
  proof (intro allI impI)
    fix a assume "a \<in> set ?sel \<and> content (st a) \<noteq> NoContent"
    then have "a \<in> fst ` set (W1 @ W2)"
      unfolding dom by simp
    then show "embedding (st_out r a) \<noteq> None"
      unfolding out by (rule foldl_assign_written(1))
  qed
  have kept: "\<forall>a. content (st a) = NoContent \<longrightarrow> st_out r a = st a"
  proof (intro allI impI)
    fix a assume "content (st a) = NoContent"
    then have "a \<notin> fst ` set (W1 @ W2)"
      unfolding dom by simp
    then show "st_out r a = st a"
      unfolding out by (rule foldl_assign_written(2))
  qed
  have fresh: "(\<forall>a. embedding (st a) = None) \<longrightarrow>
      {a. embedding (st_out r a) \<noteq> None} = {a \<in> set ?sel. content (st a) \<noteq> NoContent}"
  proof
    assume none: "\<forall>a. embedding (st a) = None"
    have "(embedding (st_out r a) \<noteq> None) = (a \<in> fst ` set (W1 @ W2))" for a
    proof (cases "a \<in> fst ` set (W1 @ W2)")
      case True
      then show ?thesis
        using foldl_assign_written(1) [of a "W1 @ W2" st] by (simp add: out)
    next
      case False
      then show ?thesis
        using foldl_assign_written(2) [of a "W1 @ W2" st] none by (simp add: out)
    qed
    then show "{a. embedding (st_out r a) \<noteq> None} =
        {a \<in> set ?sel. content (st a) \<noteq> NoContent}"
      using dom by blast
  qed
  have shape: "\<forall>a. content (st_out r a) = content (st a) \<and>
      matches (st_out r a) = matches (st a) \<and> chunks (st_out r a) = chunks (st a)"
    by (simp add: out foldl_assign_shape)
  show ?thesis
    by (intro conjI) (rule written some kept fresh ds shape)+
qed

text \<open>
  The scenario of the specification: image A, text B, image C and an Item without
  content, in this order; A, B and C get their embeddings, the fourth Item none.
\<close>

theorem encode_embeds_selected_content_items_witness:
  "result (encode demo_encoder demo_engine [0, 1, 2, 3] Map.empty demo_store) = Inr [0, 1, 2, 3] \<and>
   {a. embedding (st_out (encode demo_encoder demo_engine [0, 1, 2, 3] Map.empty demo_store) a)
          \<noteq> None} =
     {a \<in> set [0, 1, 2, 3]. content (demo_store a) \<noteq> NoContent} \<and>
   map (\<lambda>a. content (demo_store a)) [0, 1, 2, 3] =
     [ImageContent [10], TextContent [20], ImageContent [30], NoContent] \<and>
   map (\<lambda>a. embedding
          (st_out (encode demo_encoder demo_engine [0, 1, 2, 3] Map.empty demo_store) a))
     [0, 1, 2, 3] = [Some [10, 1], Some [20, 2], Some [30, 1], None]"
proof -
  from encode_embeds_selected_content_items [OF refl demo_encode_result] demo_no_embeddings
  have "{a. embedding (st_out (encode demo_encoder demo_engine [0, 1, 2, 3] Map.empty demo_store) a)
          \<noteq> None} =
     {a \<in> set (select demo_store [0, 1, 2, 3] (fst (request_access_paths demo_encoder Map.empty))).
        content (demo_store a) \<noteq> NoContent}"
    by blast
  then have "{a. embedding (st_out (encode demo_encoder demo_engine [0, 1, 2, 3] Map.empty demo_store) a)
          \<noteq> None} =
     {a \<in> set [0, 1, 2, 3]. content (demo_store a) \<noteq> NoContent}"
    unfolding demo_select .
  with demo_encode_result demo_contents demo_encode_embeddings show ?thesis by blast
qed

subsection \<open>C1: a failing minibatch\<close>

text \<open>
  C1, as stated, fails on the code: in the example request the tokenizer raises on the
  only text minibatch, the call fails, and the images 0 and 2, which had no embedding
  before the call, end it with the embeddings the image loop has written. Embeddings are
  assigned to the shared Items minibatch by minibatch, and nothing undoes them.
\<close>

theorem partial_results_counterexample:
  "result (encode demo_encoder failing_text_engine [0, 1, 2, 3] Map.empty demo_store) =
     Inl TransformFailure \<and>
   map (\<lambda>a. embedding (demo_store a)) [0, 1, 2, 3] = [None, None, None, None] \<and>
   map (\<lambda>a. embedding
          (st_out (encode demo_encoder failing_text_engine [0, 1, 2, 3] Map.empty demo_store) a))
     [0, 1, 2, 3] = [Some [10, 1], None, Some [30, 1], None]"
  using failing_encode_result failing_encode_embeddings
  by (simp add: demo_defs)

text \<open>
  C1, amended: when some minibatch of the call fails (its transform raises, the model
  raises on it, or the model returns the wrong number of embeddings), the whole
  \<open>encode\<close> call fails and returns no Document Set; there is no rollback: every Item of
  a minibatch whose write-back the call has completed keeps an embedding, and every
  other Item is left exactly as it was before the call.
\<close>

theorem failed_minibatch_fails_encode:
  assumes "split_docs st (select st docs (fst (request_access_paths self parameters))) =
             (img_da, txt_da)"
    and "r = encode self eng docs parameters st"
    and "(\<exists>b\<in>set (batch (nat (minibatch_size self)) img_da).
            fst (run_minibatches eng Image [b] st []) \<noteq> None) \<or>
         (\<exists>b\<in>set (batch (nat (minibatch_size self)) txt_da).
            fst (run_minibatches eng Text [b] st []) \<noteq> None)"
  shows "(\<exists>e. result r = Inl e) \<and>
         (\<forall>a. (\<exists>m b. WriteBack m b \<in> set (events r) \<and> a \<in> set b) \<longrightarrow>
              embedding (st_out r a) \<noteq> None) \<and>
         (\<forall>a. \<not> (\<exists>m b. WriteBack m b \<in> set (events r) \<and> a \<in> set b) \<longrightarrow>
              st_out r a = st a)"
proof -
  let ?ap = "fst (request_access_paths self parameters)"
  let ?c = "\<lambda>a. content (st a)"
  let ?n = "minibatch_size self"
  have r: "st_out r = st_out (encode_paths self eng ?ap docs st)"
    "result r = result (encode_paths self eng ?ap docs st)"
    "events r = events (encode_paths self eng ?ap docs st)"
    by (simp_all add: assms(2) encode_fields)
  obtain res W evs where pl: "encode_plan self eng ?ap docs st = (res, W, evs)"
    by (cases "encode_plan self eng ?ap docs st")
  have out: "st_out r = foldl assign st W" and ev: "events r = evs" and res: "result r = res"
    by (simp_all add: r encode_paths_plan pl)
  have fails: "\<exists>e. result r = Inl e"
    using assms(1)
  proof (cases rule: encode_plan_cases [where eng = eng and self = self])
    case (image_fails e W1 ev1)
    with pl have "res = Inl e" by simp
    with res show ?thesis by blast
  next
    case (text_fails e W1 ev1 W2 ev2)
    with pl have "res = Inl e" by simp
    with res show ?thesis by blast
  next
    case (succeeds W1 ev1 W2 ev2)
    from assms(3) have False
    proof
      assume "\<exists>b\<in>set (batch (nat ?n) img_da). fst (run_minibatches eng Image [b] st []) \<noteq> None"
      then obtain b where "b \<in> set (batch (nat ?n) img_da)"
        and "fst (run_minibatches eng Image [b] st []) \<noteq> None"
        by blast
      from phase_plan_fails [OF this] succeeds(1) show False by simp
    next
      assume "\<exists>b\<in>set (batch (nat ?n) txt_da). fst (run_minibatches eng Text [b] st []) \<noteq> None"
      then obtain b where "b \<in> set (batch (nat ?n) txt_da)"
        and "fst (run_minibatches eng Text [b] st []) \<noteq> None"
        by blast
      from phase_plan_fails [OF this] succeeds(2) show False by simp
    qed
    then show ?thesis ..
  qed
  have kept: "\<forall>a. (\<exists>m b. WriteBack m b \<in> set (events r) \<and> a \<in> set b) \<longrightarrow>
      embedding (st_out r a) \<noteq> None"
  proof (intro allI impI)
    fix a assume "\<exists>m b. WriteBack m b \<in> set (events r) \<and> a \<in> set b"
    then have "a \<in> fst ` set W"
      unfolding ev encode_plan_written [OF pl] .
    then show "embedding (st_out r a) \<noteq> None"
      unfolding out by (rule foldl_assign_written(1))
  qed
  have untouched: "\<forall>a. \<not> (\<exists>m b. WriteBack m b \<in> set (events r) \<and> a \<in> set b) \<longrightarrow>
      st_out r a = st a"
  proof (intro allI impI)
    fix a assume "\<not> (\<exists>m b. WriteBack m b \<in> set (events r) \<and> a \<in> set b)"
    then have "a \<notin> fst ` set W"
      unfolding ev encode_plan_written [OF pl] .
    then show "st_out r a = st a"
      unfolding out by (rule foldl_assign_written(2))
  qed
  show ?thesis
    by (intro conjI) (rule fails kept untouched)+
qed

text \<open>
  The example request with the failing tokenizer: the call fails after the write-back of
  the image minibatch, whose Items 0 and 2 keep their embeddings; Items 1 and 3 are
  untouched.
\<close>

theorem failed_minibatch_fails_encode_witness:
  "split_docs demo_store
     (select demo_store [0, 1, 2, 3] (fst (request_access_paths demo_encoder Map.empty))) =
     ([0, 2], [1]) \<and>
   fst (run_minibatches failing_text_engine Text [[1]] demo_store []) = Some TransformFailure \<and>
   result (encode demo_encoder failing_text_engine [0, 1, 2, 3] Map.empty demo_store) =
     Inl TransformFailure \<and>
   events (encode demo_encoder failing_text_engine [0, 1, 2, 3] Map.empty demo_store) =
     [Preprocessed Image [0, 2], Inference Image [0, 2], WriteBack Image [0, 2],
      Preprocessed Text [1]] \<and>
   map (\<lambda>a. embedding
          (st_out (encode demo_encoder failing_text_engine [0, 1, 2, 3] Map.empty demo_store) a))
     [0, 1, 2, 3] = [Some [10, 1], None, Some [30, 1], None]"
proof -
  have hyp: "(\<exists>b\<in>set (batch (nat (minibatch_size demo_encoder)) [0, 2]).
            fst (run_minibatches failing_text_engine Image [b] demo_store []) \<noteq> None) \<or>
         (\<exists>b\<in>set (batch (nat (minibatch_size demo_encoder)) [1]).
            fst (run_minibatches failing_text_engine Text [b] demo_store []) \<noteq> None)"
  proof (rule disjI2, rule bexI [of _ "[1]"])
    from failing_text_batch
    have "fst (run_minibatches failing_text_engine Text [[1]] demo_store []) =
        Some TransformFailure"
      by blast
    then show "fst (run_minibatches failing_text_engine Text [[1]] demo_store []) \<noteq> None"
      by simp
    from failing_text_batch
    show "[1] \<in> set (batch (nat (minibatch_size demo_encoder)) [1])"
      by blast
  qed
  note w = failed_minibatch_fails_encode [OF demo_split refl hyp]
  from w demo_split failing_text_batch failing_encode_result failing_encode_events
    failing_encode_embeddings
  show ?thesis by blast
qed

end
